theory Spec2Isabelle
  imports Main "HOL-Library.Word"
begin

unbundle bit_operations_syntax

section \<open>The LC-3 emulator: data model\<close>

text \<open>
  The emulator keeps its whole state in two package-level variables, \<open>memory\<close>
  (a slice of \<open>MEMORY_MAX\<close> words of type \<open>uint16\<close>) and \<open>reg\<close> (an array of
  \<open>R_COUNT\<close> words), and in the local variable \<open>running\<close> of \<open>main\<close>. A \<open>uint16\<close>
  is a \<open>16 word\<close>: \<open>+\<close> wraps, \<open>drop_bit\<close> is \<open>>>\<close>, \<open>push_bit\<close> is \<open><<\<close>.

  The two arrays never change their length, so each is modelled by its contents, a
  function from the index, together with its length: every indexing of the source goes
  through \<open>rd_mem\<close>, \<open>wr_mem\<close>, \<open>rd_reg\<close> or \<open>wr_reg\<close>, which compare the index with
  the length and fail with \<open>IndexOutOfRange\<close> where Go panics.
\<close>

definition MEMORY_MAX :: nat where
  "MEMORY_MAX = 2 ^ 16"

definition R_R0 :: nat where "R_R0 = 0"
definition R_R7 :: nat where "R_R7 = 7"
definition R_PC :: nat where "R_PC = 8"
definition R_COND :: nat where "R_COND = 9"
definition R_COUNT :: nat where "R_COUNT = 10"

definition OP_BR :: "16 word" where "OP_BR = 0"
definition OP_ADD :: "16 word" where "OP_ADD = 1"
definition OP_LD :: "16 word" where "OP_LD = 2"
definition OP_ST :: "16 word" where "OP_ST = 3"
definition OP_JSR :: "16 word" where "OP_JSR = 4"
definition OP_AND :: "16 word" where "OP_AND = 5"
definition OP_LDR :: "16 word" where "OP_LDR = 6"
definition OP_STR :: "16 word" where "OP_STR = 7"
definition OP_RTI :: "16 word" where "OP_RTI = 8"
definition OP_NOT :: "16 word" where "OP_NOT = 9"
definition OP_LDI :: "16 word" where "OP_LDI = 10"
definition OP_STI :: "16 word" where "OP_STI = 11"
definition OP_JMP :: "16 word" where "OP_JMP = 12"
definition OP_RES :: "16 word" where "OP_RES = 13"
definition OP_LEA :: "16 word" where "OP_LEA = 14"
definition OP_TRAP :: "16 word" where "OP_TRAP = 15"

definition FL_POS :: "16 word" where "FL_POS = push_bit 0 1"
definition FL_ZRO :: "16 word" where "FL_ZRO = push_bit 1 1"
definition FL_NEG :: "16 word" where "FL_NEG = push_bit 2 1"

definition TRAP_GETC :: "16 word" where "TRAP_GETC = 0x20"
definition TRAP_OUT :: "16 word" where "TRAP_OUT = 0x21"
definition TRAP_PUTS :: "16 word" where "TRAP_PUTS = 0x22"
definition TRAP_IN :: "16 word" where "TRAP_IN = 0x23"
definition TRAP_PUTSP :: "16 word" where "TRAP_PUTSP = 0x24"
definition TRAP_HALT :: "16 word" where "TRAP_HALT = 0x25"

definition MR_KBSR :: "16 word" where "MR_KBSR = 0xFE00"
definition MR_KBDR :: "16 word" where "MR_KBDR = 0xFE02"

lemmas reg_names = R_R0_def R_R7_def R_PC_def R_COND_def R_COUNT_def

lemmas op_names = OP_BR_def OP_ADD_def OP_LD_def OP_ST_def OP_JSR_def OP_AND_def
  OP_LDR_def OP_STR_def OP_RTI_def OP_NOT_def OP_LDI_def OP_STI_def OP_JMP_def
  OP_RES_def OP_LEA_def OP_TRAP_def

lemmas flag_names = FL_POS_def FL_ZRO_def FL_NEG_def

lemmas trap_names = TRAP_GETC_def TRAP_OUT_def TRAP_PUTS_def TRAP_IN_def
  TRAP_PUTSP_def TRAP_HALT_def

lemmas mr_names = MR_KBSR_def MR_KBDR_def

text \<open>
  What ends the process abnormally: an index out of range and a negative shift count
  are Go's run-time panics, \<open>Panic\<close> is a call of \<open>panic\<close> with its message and
  \<open>Fatal\<close> a call of \<open>log.Fatal\<close> with its message.
\<close>

datatype fault = IndexOutOfRange | NegativeShift | Panic string | Fatal string

text \<open>
  Standard output is the sequence of what was printed: \<open>Rune c\<close> for
  \<open>fmt.Printf("%c", rune(c))\<close> of a 16-bit value \<open>c\<close>, \<open>Text s\<close> for a string printed by
  \<open>fmt.Println\<close> or \<open>fmt.Printf\<close> (the newline of \<open>Println\<close> is the character 10).
\<close>

datatype out_item = Rune "16 word" | Text string

text \<open>
  Standard input is outside the program. The emulator asks the host three questions,
  each through a fresh \<open>bufio.Reader\<close>: whether \<open>Peek(1)\<close> succeeds, what
  \<open>ReadByte\<close> returns, and what \<open>ReadRune\<close> returns (\<open>None\<close> is an error). The host
  is the table of its answers, indexed by the number of questions asked before
  (\<open>host_calls\<close>); quantifying over the table covers every behaviour of the host.
\<close>

record host =
  peek_ok :: "nat \<Rightarrow> bool"
  byte_in :: "nat \<Rightarrow> 8 word option"
  rune_in :: "nat \<Rightarrow> 32 word option"

record machine =
  memory :: "nat \<Rightarrow> 16 word"
  reg :: "nat \<Rightarrow> 16 word"
  running :: bool
  stdout :: "out_item list"
  host_calls :: nat
  opened :: "string list"

text \<open>\<open>opened\<close> lists the paths given to \<open>os.Open\<close> so far, oldest first.\<close>

definition bindR :: "fault + 'a \<Rightarrow> ('a \<Rightarrow> fault + 'b) \<Rightarrow> fault + 'b" where
  "bindR m f = (case m of Inl e \<Rightarrow> Inl e | Inr v \<Rightarrow> f v)"

definition rd_mem :: "machine \<Rightarrow> nat \<Rightarrow> fault + 16 word" where
  "rd_mem s i = (if i < MEMORY_MAX then Inr (memory s i) else Inl IndexOutOfRange)"

definition wr_mem :: "machine \<Rightarrow> nat \<Rightarrow> 16 word \<Rightarrow> fault + machine" where
  "wr_mem s i v =
     (if i < MEMORY_MAX then Inr (s\<lparr>memory := (memory s)(i := v)\<rparr>)
      else Inl IndexOutOfRange)"

definition rd_reg :: "machine \<Rightarrow> nat \<Rightarrow> fault + 16 word" where
  "rd_reg s i = (if i < R_COUNT then Inr (reg s i) else Inl IndexOutOfRange)"

definition wr_reg :: "machine \<Rightarrow> nat \<Rightarrow> 16 word \<Rightarrow> fault + machine" where
  "wr_reg s i v =
     (if i < R_COUNT then Inr (s\<lparr>reg := (reg s)(i := v)\<rparr>)
      else Inl IndexOutOfRange)"

section \<open>Bit utilities\<close>

text \<open>
  \<open>updateFlags(r)\<close> reads \<open>reg[r]\<close> and stores one of the three flags in
  \<open>reg[R_COND]\<close>.
\<close>

definition updateFlags :: "16 word \<Rightarrow> machine \<Rightarrow> fault + machine" where
  "updateFlags r s =
     bindR (rd_reg s (unat r)) (\<lambda>v.
       if v = 0 then wr_reg s R_COND FL_ZRO
       else if drop_bit 15 v \<noteq> 0 then wr_reg s R_COND FL_NEG
       else wr_reg s R_COND FL_POS)"

text \<open>
  \<open>signExtend(x, bitCount)\<close>. The count is a Go \<open>int\<close>; a shift by a negative count
  panics, so \<open>1 << bitCount\<close> fails for a negative count and \<open>x >> (bitCount-1)\<close>
  for the count 0. The constants \<open>1\<close> and \<open>0xFFFF\<close> take the type of \<open>x\<close>, so both
  shifts are 16-bit shifts (a count of 16 or more gives 0).
\<close>

definition signExtend :: "16 word \<Rightarrow> int \<Rightarrow> fault + 16 word" where
  "signExtend x bitCount =
     (if bitCount < 0 then Inl NegativeShift
      else let x1 = x AND (push_bit (nat bitCount) 1 - 1) in
        if bitCount - 1 < 0 then Inl NegativeShift
        else if drop_bit (nat (bitCount - 1)) x1 AND 1 \<noteq> 0
          then Inr (x1 OR push_bit (nat bitCount) 0xFFFF)
          else Inr x1)"

section \<open>Memory bus\<close>

text \<open>
  \<open>peekChar\<close> asks the host whether a byte can be peeked. \<open>memRead\<close> polls the
  keyboard when the address is \<open>MR_KBSR\<close>, then reads the cell; its bound test is
  \<open>int(address) <= len(memory)\<close> as in the source. \<open>memWrite\<close> tests
  \<open>address <= 65535\<close>. The mutex of \<open>memRead\<close> has no effect in the single thread
  of the program and is left out.
\<close>

definition peekChar :: "host \<Rightarrow> machine \<Rightarrow> bool \<times> machine" where
  "peekChar h s = (peek_ok h (host_calls s), s\<lparr>host_calls := host_calls s + 1\<rparr>)"

definition memRead :: "host \<Rightarrow> 16 word \<Rightarrow> machine \<Rightarrow> fault + (16 word \<times> machine)" where
  "memRead h address s =
     bindR
       (if address = MR_KBSR then
          (case peekChar h s of
             (True, s1) \<Rightarrow>
               (case byte_in h (host_calls s1) of
                  None \<Rightarrow> Inl (Panic ''couldn't read from I/O'')
                | Some char \<Rightarrow>
                    bindR (wr_mem (s1\<lparr>host_calls := host_calls s1 + 1\<rparr>)
                             (unat MR_KBSR) (push_bit 15 1)) (\<lambda>s2.
                    wr_mem s2 (unat MR_KBDR) (ucast char)))
           | (False, s1) \<Rightarrow> wr_mem s1 (unat MR_KBSR) 0)
        else Inr s)
       (\<lambda>s3.
          if unat address \<le> MEMORY_MAX
          then bindR (rd_mem s3 (unat address)) (\<lambda>v. Inr (v, s3))
          else Inl (Fatal ''unhandled cpu memory read at''))"

definition memWrite :: "16 word \<Rightarrow> 16 word \<Rightarrow> machine \<Rightarrow> fault + machine" where
  "memWrite address val s =
     (if address \<le> 65535 then wr_mem s (unat address) val
      else Inl (Fatal ''cannot write to memory''))"

section \<open>Image loader\<close>

text \<open>
  The file system is a table from a path to the bytes of the file; \<open>None\<close> is a path
  that \<open>os.Open\<close> or \<open>Stat\<close> refuses. \<open>read_u16\<close> is
  \<open>binary.Read(buffer, binary.BigEndian, &val)\<close> on a \<open>val\<close> that is zero before
  the call: with fewer than two bytes left the call fails, the buffer is drained and
  \<open>val\<close> stays zero. The source drops the error.
\<close>

definition read_u16 :: "8 word list \<Rightarrow> 16 word \<times> 8 word list" where
  "read_u16 buf =
     (case buf of
        b0 # b1 # rest \<Rightarrow> (push_bit 8 (ucast b0) OR ucast b1, rest)
      | _ \<Rightarrow> (0, []))"

text \<open>The loop \<open>for i := origin; i < math.MaxUint16; i++\<close> of \<open>readImage\<close>.\<close>

function load_loop :: "8 word list \<Rightarrow> 16 word \<Rightarrow> machine \<Rightarrow> fault + machine" where
  "load_loop buf i s =
     (if i < 65535 then
        (case read_u16 buf of
           (val, buf1) \<Rightarrow>
             (case wr_mem s (unat i) val of
                Inl e \<Rightarrow> Inl e
              | Inr s1 \<Rightarrow> load_loop buf1 (i + 1) s1))
      else Inr s)"
  by pat_completeness auto
termination
proof (relation "measure (\<lambda>(buf, i, s). 65535 - unat i)")
  show "wf (measure (\<lambda>(buf, i, s). 65535 - unat i))" by simp
next
  fix buf :: "8 word list" and i :: "16 word" and s :: machine
    and x :: "16 word \<times> 8 word list" and val buf1 s1
  assume "i < 65535"
  then have "unat i < 65535" by (simp add: word_less_nat_alt)
  moreover from this have "unat (i + 1) = unat i + 1"
    by (simp add: unat_word_ariths)
  ultimately show "((buf1, i + 1, s1), (buf, i, s)) \<in> measure (\<lambda>(buf, i, s). 65535 - unat i)"
    by simp
qed

declare load_loop.simps [simp del]

text \<open>
  \<open>readImage(path)\<close>. The first \<open>Read\<close> fills up to two header bytes and fails on an
  empty file; the buffer \<open>byteArr\<close> has the size of the whole file, and the second
  \<open>Read\<close> fills it with the bytes after the header, failing when there is none; the
  bytes of \<open>byteArr\<close> it does not reach stay zero. The log lines go to standard error
  and are left out.
\<close>

definition readImage ::
  "(string \<Rightarrow> 8 word list option) \<Rightarrow> string \<Rightarrow> machine \<Rightarrow> fault + (bool \<times> machine)" where
  "readImage fs path s =
     (let s0 = s\<lparr>opened := opened s @ [path]\<rparr> in
      case fs path of
        None \<Rightarrow> Inr (False, s0)
      | Some content \<Rightarrow>
          if content = [] then Inr (False, s0)
          else
            let headerBytes = take 2 content @ replicate (2 - length (take 2 content)) 0;
                origin = fst (read_u16 headerBytes);
                size = length content;
                rest = drop 2 content;
                byteArr = rest @ replicate (size - length rest) 0
            in if rest = [] then Inr (False, s0)
               else bindR (load_loop byteArr origin s0) (\<lambda>s1. Inr (True, s1)))"

section \<open>Opcode handlers\<close>

text \<open>
  Each case of the \<open>switch op\<close> of \<open>main\<close> is a function of the instruction word and
  the state; \<open>reg[R_PC]\<close> has been incremented before.
\<close>

definition op_add :: "16 word \<Rightarrow> machine \<Rightarrow> fault + machine" where
  "op_add instr s =
     (let r0 = drop_bit 9 instr AND 0x7;
          r1 = drop_bit 6 instr AND 0x7;
          immFlag = drop_bit 5 instr AND 0x1
      in bindR
           (if immFlag = 1 then
              bindR (signExtend (instr AND 0x1F) 5) (\<lambda>imm5.
              bindR (rd_reg s (unat r1)) (\<lambda>a.
              wr_reg s (unat r0) (a + imm5)))
            else
              (let r2 = instr AND 0x7 in
               bindR (rd_reg s (unat r1)) (\<lambda>a.
               bindR (rd_reg s (unat r2)) (\<lambda>b.
               wr_reg s (unat r0) (a + b)))))
           (updateFlags r0))"

definition op_and :: "16 word \<Rightarrow> machine \<Rightarrow> fault + machine" where
  "op_and instr s =
     (let r0 = drop_bit 9 instr AND 0x7;
          r1 = drop_bit 6 instr AND 0x7;
          immFlag = drop_bit 5 instr AND 0x1
      in bindR
           (if immFlag = 0 then
              (let r2 = instr AND 0x7 in
               bindR (rd_reg s (unat r1)) (\<lambda>a.
               bindR (rd_reg s (unat r2)) (\<lambda>b.
               wr_reg s (unat r0) (a AND b))))
            else
              bindR (signExtend (instr AND 0x1F) 5) (\<lambda>imm5.
              bindR (rd_reg s (unat r1)) (\<lambda>a.
              wr_reg s (unat r0) (a AND imm5))))
           (updateFlags r0))"

definition op_not :: "16 word \<Rightarrow> machine \<Rightarrow> fault + machine" where
  "op_not instr s =
     (let r0 = drop_bit 9 instr AND 0x7;
          r1 = drop_bit 6 instr AND 0x7
      in bindR (rd_reg s (unat r1)) (\<lambda>a.
         bindR (wr_reg s (unat r0) (NOT a)) (updateFlags r0)))"

definition op_br :: "16 word \<Rightarrow> machine \<Rightarrow> fault + machine" where
  "op_br instr s =
     bindR (signExtend (instr AND 0x1FF) 9) (\<lambda>pcOffset.
       let condFlag = drop_bit 9 instr AND 0x7 in
       bindR (rd_reg s R_COND) (\<lambda>c.
         if condFlag AND c \<noteq> 0
         then bindR (rd_reg s R_PC) (\<lambda>pc. wr_reg s R_PC (pc + pcOffset))
         else Inr s))"

definition op_jmp :: "16 word \<Rightarrow> machine \<Rightarrow> fault + machine" where
  "op_jmp instr s =
     (let r1 = drop_bit 6 instr AND 0x7
      in bindR (rd_reg s (unat r1)) (\<lambda>a. wr_reg s R_PC a))"

definition op_jsr :: "16 word \<Rightarrow> machine \<Rightarrow> fault + machine" where
  "op_jsr instr s =
     bindR (rd_reg s R_PC) (\<lambda>pc.
     bindR (wr_reg s R_R7 pc) (\<lambda>s1.
       let flag = drop_bit 11 instr AND 1 in
       if flag = 0 then
         (let r1 = drop_bit 6 instr AND 0x7
          in bindR (rd_reg s1 (unat r1)) (\<lambda>a. wr_reg s1 R_PC a))
       else
         bindR (rd_reg s1 R_PC) (\<lambda>pc1.
         bindR (signExtend (instr AND 0x7FF) 11) (\<lambda>off.
         wr_reg s1 R_PC (pc1 + off)))))"

definition op_ld :: "host \<Rightarrow> 16 word \<Rightarrow> machine \<Rightarrow> fault + machine" where
  "op_ld h instr s =
     (let r0 = drop_bit 9 instr AND 0x7 in
      bindR (signExtend (instr AND 0x1FF) 9) (\<lambda>pcOffset.
      bindR (rd_reg s R_PC) (\<lambda>pc.
      bindR (memRead h (pc + pcOffset) s) (\<lambda>(v, s1).
      bindR (wr_reg s1 (unat r0) v) (updateFlags r0)))))"

definition op_ldi :: "host \<Rightarrow> 16 word \<Rightarrow> machine \<Rightarrow> fault + machine" where
  "op_ldi h instr s =
     (let r0 = drop_bit 9 instr AND 0x7 in
      bindR (signExtend (instr AND 0x1FF) 9) (\<lambda>pcOffset.
      bindR (rd_reg s R_PC) (\<lambda>pc.
      bindR (memRead h (pc + pcOffset) s) (\<lambda>(a, s1).
      bindR (memRead h a s1) (\<lambda>(v, s2).
      bindR (wr_reg s2 (unat r0) v) (updateFlags r0))))))"

definition op_ldr :: "host \<Rightarrow> 16 word \<Rightarrow> machine \<Rightarrow> fault + machine" where
  "op_ldr h instr s =
     (let r0 = drop_bit 9 instr AND 0x7 in
      bindR (signExtend (instr AND 0x3F) 6) (\<lambda>offset.
        let r1 = drop_bit 6 instr AND 0x7 in
        bindR (rd_reg s (unat r1)) (\<lambda>base.
        bindR (memRead h (base + offset) s) (\<lambda>(v, s1).
        bindR (wr_reg s1 (unat r0) v) (updateFlags r0)))))"

definition op_lea :: "16 word \<Rightarrow> machine \<Rightarrow> fault + machine" where
  "op_lea instr s =
     (let r0 = drop_bit 9 instr AND 0x7 in
      bindR (signExtend (instr AND 0x1FF) 9) (\<lambda>pcOffset.
      bindR (rd_reg s R_PC) (\<lambda>pc.
      bindR (wr_reg s (unat r0) (pc + pcOffset)) (updateFlags r0))))"

definition op_st :: "16 word \<Rightarrow> machine \<Rightarrow> fault + machine" where
  "op_st instr s =
     (let r0 = drop_bit 9 instr AND 0x7 in
      bindR (signExtend (instr AND 0x1FF) 9) (\<lambda>pcOffset.
      bindR (rd_reg s R_PC) (\<lambda>pc.
      bindR (rd_reg s (unat r0)) (\<lambda>v.
      memWrite (pc + pcOffset) v s))))"

definition op_sti :: "host \<Rightarrow> 16 word \<Rightarrow> machine \<Rightarrow> fault + machine" where
  "op_sti h instr s =
     (let r0 = drop_bit 9 instr AND 0x7 in
      bindR (signExtend (instr AND 0x1FF) 9) (\<lambda>pcOffset.
      bindR (rd_reg s R_PC) (\<lambda>pc.
      bindR (memRead h (pc + pcOffset) s) (\<lambda>(address, s1).
      bindR (rd_reg s1 (unat r0)) (\<lambda>v.
      memWrite address v s1)))))"

definition op_str :: "16 word \<Rightarrow> machine \<Rightarrow> fault + machine" where
  "op_str instr s =
     (let r0 = drop_bit 9 instr AND 0x7;
          r1 = drop_bit 6 instr AND 0x7
      in bindR (signExtend (instr AND 0x3F) 6) (\<lambda>offset.
         bindR (rd_reg s (unat r1)) (\<lambda>base.
         bindR (rd_reg s (unat r0)) (\<lambda>v.
         memWrite (base + offset) v s))))"

section \<open>Trap handlers\<close>

text \<open>
  The loop of \<open>TRAP_PUTS\<close> is \<open>for ok := true; ok; ok = (chr != 0x0)\<close>: the body
  runs, then the test. The loop of \<open>TRAP_PUTSP\<close> has no condition and leaves by
  \<open>break\<close>; its body ends with \<open>i++\<close> and its \<open>for\<close> clause has another \<open>i++\<close>.
  The index \<open>i\<close> is a \<open>uint16\<close> and wraps, so either loop may run forever:
  \<open>None\<close> is the loop that does not return.
\<close>

partial_function (option) puts_loop ::
  "16 word \<Rightarrow> 16 word \<Rightarrow> machine \<Rightarrow> (fault + machine) option" where
  "puts_loop address i s =
     (case rd_mem s (unat (address + i)) of
        Inl e \<Rightarrow> Some (Inl e)
      | Inr w \<Rightarrow>
          (let chr = w AND 0xFFFF;
               s1 = s\<lparr>stdout := stdout s @ [Rune chr]\<rparr>;
               i1 = i + 1
           in if chr \<noteq> 0x0 then puts_loop address i1 s1 else Some (Inr s1)))"

partial_function (option) putsp_loop ::
  "16 word \<Rightarrow> 16 word \<Rightarrow> machine \<Rightarrow> (fault + machine) option" where
  "putsp_loop address i s =
     (case rd_mem s (unat (address + i)) of
        Inl e \<Rightarrow> Some (Inl e)
      | Inr chr \<Rightarrow>
          if chr = 0 then Some (Inr s)
          else
            (let char1 = chr AND 0xFF;
                 s1 = s\<lparr>stdout := stdout s @ [Rune char1]\<rparr>;
                 char2 = drop_bit 8 chr;
                 s2 = (if char2 \<noteq> 0 then s1\<lparr>stdout := stdout s1 @ [Rune char2]\<rparr> else s1);
                 i1 = i + 1
             in putsp_loop address (i1 + 1) s2))"

definition read_rune_R0 :: "host \<Rightarrow> machine \<Rightarrow> fault + machine" where
  "read_rune_R0 h s =
     (case rune_in h (host_calls s) of
        None \<Rightarrow> Inl (Panic ''tried reading entered char, failed'')
      | Some char \<Rightarrow>
          bindR (wr_reg (s\<lparr>host_calls := host_calls s + 1\<rparr>) R_R0 (ucast char))
            (updateFlags (of_nat R_R0)))"

definition trap_getc :: "host \<Rightarrow> machine \<Rightarrow> fault + machine" where
  "trap_getc h s = read_rune_R0 h s"

definition trap_out :: "machine \<Rightarrow> fault + machine" where
  "trap_out s = bindR (rd_reg s R_R0) (\<lambda>char. Inr (s\<lparr>stdout := stdout s @ [Rune char]\<rparr>))"

definition trap_puts :: "machine \<Rightarrow> (fault + machine) option" where
  "trap_puts s =
     (case rd_reg s R_R0 of
        Inl e \<Rightarrow> Some (Inl e)
      | Inr address \<Rightarrow> puts_loop address 0 s)"

definition trap_putsp :: "machine \<Rightarrow> (fault + machine) option" where
  "trap_putsp s =
     (case rd_reg s R_R0 of
        Inl e \<Rightarrow> Some (Inl e)
      | Inr address \<Rightarrow> putsp_loop address 0 s)"

definition trap_in :: "host \<Rightarrow> machine \<Rightarrow> fault + machine" where
  "trap_in h s =
     read_rune_R0 h (s\<lparr>stdout := stdout s @ [Text (''Enter character: '' @ [CHR 0x0A])]\<rparr>)"

definition trap_halt :: "machine \<Rightarrow> fault + machine" where
  "trap_halt s = Inr (s\<lparr>stdout := stdout s @ [Text (''HALT'' @ [CHR 0x0A])], running := False\<rparr>)"

definition op_trap :: "host \<Rightarrow> 16 word \<Rightarrow> machine \<Rightarrow> (fault + machine) option" where
  "op_trap h instr s =
     (case bindR (rd_reg s R_PC) (wr_reg s R_R7) of
        Inl e \<Rightarrow> Some (Inl e)
      | Inr s1 \<Rightarrow>
          (let vect = instr AND 0xFF in
           if vect = TRAP_GETC then Some (trap_getc h s1)
           else if vect = TRAP_OUT then Some (trap_out s1)
           else if vect = TRAP_PUTS then trap_puts s1
           else if vect = TRAP_PUTSP then trap_putsp s1
           else if vect = TRAP_IN then Some (trap_in h s1)
           else if vect = TRAP_HALT then Some (trap_halt s1)
           else Some (Inr s1)))"

section \<open>Execution loop\<close>

text \<open>
  \<open>fetch\<close> is \<open>instr := memRead(reg[R_PC]); reg[R_PC]++\<close>. \<open>dispatch\<close> is the
  \<open>switch op\<close>, its cases in the order of the source. A Go case does not fall through:
  the cases \<open>OP_RES\<close> and \<open>OP_RTI\<close> have empty bodies, and the \<open>panic\<close> stands in
  the \<open>default\<close> case alone.
\<close>

definition fetch :: "host \<Rightarrow> machine \<Rightarrow> fault + (16 word \<times> machine)" where
  "fetch h s =
     bindR (rd_reg s R_PC) (\<lambda>pc.
     bindR (memRead h pc s) (\<lambda>(instr, s1).
     bindR (rd_reg s1 R_PC) (\<lambda>pc1.
     bindR (wr_reg s1 R_PC (pc1 + 1)) (\<lambda>s2. Inr (instr, s2)))))"

definition dispatch :: "host \<Rightarrow> 16 word \<Rightarrow> machine \<Rightarrow> (fault + machine) option" where
  "dispatch h instr s =
     (let op = drop_bit 12 instr in
      if op = OP_ADD then Some (op_add instr s)
      else if op = OP_AND then Some (op_and instr s)
      else if op = OP_NOT then Some (op_not instr s)
      else if op = OP_BR then Some (op_br instr s)
      else if op = OP_JMP then Some (op_jmp instr s)
      else if op = OP_JSR then Some (op_jsr instr s)
      else if op = OP_LD then Some (op_ld h instr s)
      else if op = OP_LDI then Some (op_ldi h instr s)
      else if op = OP_LDR then Some (op_ldr h instr s)
      else if op = OP_LEA then Some (op_lea instr s)
      else if op = OP_ST then Some (op_st instr s)
      else if op = OP_STI then Some (op_sti h instr s)
      else if op = OP_STR then Some (op_str instr s)
      else if op = OP_TRAP then op_trap h instr s
      else if op = OP_RES then Some (Inr s)
      else if op = OP_RTI then Some (Inr s)
      else Some (Inl (Panic ''bad opcode'')))"

definition step :: "host \<Rightarrow> machine \<Rightarrow> (fault + machine) option" where
  "step h s =
     (case fetch h s of
        Inl e \<Rightarrow> Some (Inl e)
      | Inr (instr, s1) \<Rightarrow> dispatch h instr s1)"

text \<open>
  How the process ends: \<open>os.Exit\<close> with a code, a fault, or the return of \<open>main\<close>
  after the loop (exit code 0).
\<close>

datatype outcome = Exit nat machine | Crash fault | Return machine

partial_function (option) run :: "host \<Rightarrow> machine \<Rightarrow> outcome option" where
  "run h s =
     (if running s then
        (case step h s of
           None \<Rightarrow> None
         | Some (Inl e) \<Rightarrow> Some (Crash e)
         | Some (Inr s1) \<Rightarrow> run h s1)
      else Some (Return s))"

section \<open>The entry point\<close>

text \<open>
  The loop \<open>for i := 0; i < len(args); i++\<close> of \<open>main\<close> over \<open>os.Args\<close>; it
  returns the path whose load failed, if one did.
\<close>

function load_images ::
  "(string \<Rightarrow> 8 word list option) \<Rightarrow> string list \<Rightarrow> nat \<Rightarrow> machine
     \<Rightarrow> fault + (string option \<times> machine)" where
  "load_images fs args i s =
     (if i < length args then
        (case readImage fs (args ! i) s of
           Inl e \<Rightarrow> Inl e
         | Inr (ok, s1) \<Rightarrow>
             if \<not> ok then Inr (Some (args ! i), s1)
             else load_images fs args (i + 1) s1)
      else Inr (None, s))"
  by pat_completeness auto
termination
  by (relation "measure (\<lambda>(fs, args, i, s). length args - i)") auto

declare load_images.simps [simp del]

text \<open>
  The statements of \<open>main\<close> between the loading and the loop:
  \<open>reg[R_COND] = FL_ZRO\<close>, \<open>reg[R_PC] = 0x3000\<close>, \<open>running := true\<close>.
\<close>

definition boot :: "machine \<Rightarrow> fault + machine" where
  "boot s =
     bindR (wr_reg s R_COND FL_ZRO) (\<lambda>s1.
     bindR (wr_reg s1 R_PC 0x3000) (\<lambda>s2.
     Inr (s2\<lparr>running := True\<rparr>)))"

text \<open>The process starts with zeroed memory and registers and nothing printed.\<close>

definition start :: machine where
  "start = \<lparr>memory = (\<lambda>_. 0), reg = (\<lambda>_. 0), running = True, stdout = [],
             host_calls = 0, opened = []\<rparr>"

definition main ::
  "host \<Rightarrow> (string \<Rightarrow> 8 word list option) \<Rightarrow> string list \<Rightarrow> outcome option" where
  "main h fs args =
     (if length args < 2 then
        Some (Exit 2 (start\<lparr>stdout := stdout start @ [Text (''lc3 [image-file1] ...'' @ [CHR 0x0A])]\<rparr>))
      else
        (case load_images fs args 0 start of
           Inl e \<Rightarrow> Some (Crash e)
         | Inr (Some path, s1) \<Rightarrow>
             Some (Exit 1 (s1\<lparr>stdout := stdout s1 @ [Text (''failed to load image: '' @ path)]\<rparr>))
         | Inr (None, s1) \<Rightarrow>
             (case boot s1 of
                Inl e \<Rightarrow> Some (Crash e)
              | Inr s2 \<Rightarrow> run h s2)))"

text \<open>
  The states the execution loop passes through: the state \<open>boot\<close> leaves, and the
  state after each instruction executed while \<open>running\<close> holds.
\<close>

inductive reachable :: "host \<Rightarrow> machine \<Rightarrow> bool" for h :: host where
  reachable_boot: "boot s0 = Inr s \<Longrightarrow> reachable h s"
| reachable_step: "reachable h s \<Longrightarrow> running s \<Longrightarrow> step h s = Some (Inr s') \<Longrightarrow> reachable h s'"

section \<open>Notions of the specification and concrete inputs\<close>

text \<open>
  The flag the specification assigns to a value: \<open>ZRO\<close> if it is zero, \<open>NEG\<close> if its
  high bit is 1, \<open>POS\<close> otherwise. It follows the words of the specification and is
  compared with what \<open>updateFlags\<close> stores.
\<close>

definition flag_of :: "16 word \<Rightarrow> 16 word" where
  "flag_of v = (if v = 0 then FL_ZRO else if bit v 15 then FL_NEG else FL_POS)"

text \<open>A host with nothing to read, and the state \<open>boot\<close> leaves with one word at 0x3000.\<close>

definition silent :: host where
  "silent = \<lparr>peek_ok = (\<lambda>_. False), byte_in = (\<lambda>_. None), rune_in = (\<lambda>_. None)\<rparr>"

definition booted :: "16 word \<Rightarrow> machine" where
  "booted w = start\<lparr>memory := (memory start)(0x3000 := w),
                    reg := (reg start)(R_COND := FL_ZRO, R_PC := 0x3000)\<rparr>"

text \<open>
  The \<open>k\<close>-th big-endian word of a byte buffer as \<open>binary.Read\<close> delivers it: zero
  once fewer than two bytes are left.
\<close>

definition word_at :: "8 word list \<Rightarrow> nat \<Rightarrow> 16 word" where
  "word_at buf k = fst (read_u16 (drop (2 * k) buf))"

text \<open>
  A booted machine whose word at 0x3000 is \<open>TRAP vect\<close>, with \<open>R0 = 0x4000\<close> and the
  rest of memory given; the string \<open>Hi!\<close>, one character a word, at 0x4000; and the
  string \<open>ABCD\<close>, two characters a word, at 0x4000.
\<close>

definition with_trap :: "16 word \<Rightarrow> (nat \<Rightarrow> 16 word) \<Rightarrow> machine" where
  "with_trap vect m = start\<lparr>memory := m(0x3000 := 0xF000 OR vect),
       reg := (reg start)(R_R0 := 0x4000, R_COND := FL_ZRO, R_PC := 0x3000)\<rparr>"

definition hi_string :: "nat \<Rightarrow> 16 word" where
  "hi_string = (\<lambda>_. 0)(0x4000 := 0x48, 0x4001 := 0x69, 0x4002 := 0x21, 0x4003 := 0)"

definition abcd_packed :: "nat \<Rightarrow> 16 word" where
  "abcd_packed = (\<lambda>_. 0)(0x4000 := 0x4241, 0x4001 := 0x4443, 0x4002 := 0)"

text \<open>
  File systems: \<open>prog.obj\<close> is the image of origin 0x3000 with the one word 0xF025
  (\<open>TRAP HALT\<close>), \<open>top.obj\<close> the image of origin 0xFFFF with the one word 0x1234. In
  \<open>path_fs\<close> the working directory holds \<open>prog.obj\<close> only (the emulator was found
  through the search path); in \<open>exe_fs\<close> it also holds the emulator's executable.
\<close>

definition image_fs :: "string \<Rightarrow> 8 word list option" where
  "image_fs = (\<lambda>_. None)(''prog.obj'' := Some [0x30, 0x00, 0xF0, 0x25],
                           ''top.obj'' := Some [0xFF, 0xFF, 0x12, 0x34])"

definition path_fs :: "string \<Rightarrow> 8 word list option" where
  "path_fs = (\<lambda>_. None)(''prog.obj'' := Some [0x30, 0x00, 0xF0, 0x25])"

definition exe_fs :: "string \<Rightarrow> 8 word list option" where
  "exe_fs = (\<lambda>_. None)(''prog.obj'' := Some [0x30, 0x00, 0xF0, 0x25],
                         ''./lc3'' := Some [0x7F, 0x45, 0x4C, 0x46])"

text \<open>The two faults that come from the host: a failed \<open>ReadByte\<close> and a failed \<open>ReadRune\<close>.\<close>

definition io_fault :: "fault \<Rightarrow> bool" where
  "io_fault e = (e = Panic ''couldn't read from I/O'' \<or> e = Panic ''tried reading entered char, failed'')"

text \<open>
  Summaries of a handler's result, used in the proofs: it failed on host input only, and
  otherwise left in \<open>COND\<close> the flag of register \<open>r\<close> (\<open>sets_flags\<close>), or the \<open>COND\<close> of
  the state \<open>s\<close> (\<open>keeps_flags\<close>), or the registers, memory and \<open>running\<close> of \<open>s\<close>
  (\<open>frame\<close>).
\<close>

definition sets_flags :: "nat \<Rightarrow> fault + machine \<Rightarrow> bool" where
  "sets_flags r res =
     (case res of Inl e \<Rightarrow> io_fault e | Inr s' \<Rightarrow> reg s' R_COND = flag_of (reg s' r))"

definition keeps_flags :: "machine \<Rightarrow> fault + machine \<Rightarrow> bool" where
  "keeps_flags s res =
     (case res of Inl e \<Rightarrow> io_fault e | Inr s' \<Rightarrow> reg s' R_COND = reg s R_COND)"

definition frame :: "machine \<Rightarrow> fault + machine \<Rightarrow> bool" where
  "frame s res =
     (case res of Inl e \<Rightarrow> False
      | Inr s' \<Rightarrow> reg s' = reg s \<and> memory s' = memory s \<and> running s' = running s)"

text \<open>
  The instruction words of the flag-setting opcodes of the specification, of the two
  traps that read a character into \<open>R0\<close>, and of the two traps that print a string.
\<close>

definition flag_setting :: "16 word \<Rightarrow> bool" where
  "flag_setting instr =
     (drop_bit 12 instr \<in> {OP_ADD, OP_AND, OP_NOT, OP_LD, OP_LDI, OP_LDR, OP_LEA})"

definition input_trap :: "16 word \<Rightarrow> bool" where
  "input_trap instr =
     (drop_bit 12 instr = OP_TRAP \<and> instr AND 0xFF \<in> {TRAP_GETC, TRAP_IN})"




section \<open>Basic facts\<close>

lemma bindR_Inl: "bindR (Inl e) f = Inl e"
  by (simp add: bindR_def)

lemma bindR_Inr: "bindR (Inr v) f = f v"
  by (simp add: bindR_def)

lemma unat16_lt: "unat (a :: 16 word) < MEMORY_MAX"
  using unsigned_less [of a, where ?'a = nat] by (simp add: MEMORY_MAX_def)

lemma rd_mem_word: "rd_mem s (unat (a :: 16 word)) = Inr (memory s (unat a))"
  by (simp add: rd_mem_def unat16_lt)

lemma wr_mem_word:
  "wr_mem s (unat (a :: 16 word)) v = Inr (s\<lparr>memory := (memory s)(unat a := v)\<rparr>)"
  by (simp add: wr_mem_def unat16_lt)

lemma le_ffff: "(a :: 16 word) \<le> 65535"
proof -
  have "(65535 :: 16 word) = - 1" by simp
  then show ?thesis by (simp only: word_order.extremum)
qed

lemma memWrite_eq: "memWrite a v s = Inr (s\<lparr>memory := (memory s)(unat a := v)\<rparr>)"
  by (simp add: memWrite_def le_ffff wr_mem_word)

lemma memRead_plain:
  "a \<noteq> MR_KBSR \<Longrightarrow> memRead h a s = Inr (memory s (unat a), s)"
  using unat16_lt [of a]
  by (simp add: memRead_def bindR_Inr rd_mem_word)

subsection \<open>Sign extension\<close>

lemma shl_one_minus_one: "(push_bit n 1 - 1 :: 16 word) = mask n"
  by (simp add: mask_eq_exp_minus_1 push_bit_eq_mult)

lemma shl_ffff: "(push_bit n 0xFFFF :: 16 word) = NOT (mask n)"
proof -
  have "(0xFFFF :: 16 word) = - 1" by simp
  then show ?thesis by (simp only: push_bit_minus_one_eq_not_mask)
qed

lemma shr_and_one: "(drop_bit k (x :: 16 word) AND 1 \<noteq> 0) = bit x k"
  by (simp add: bit_iff_and_drop_bit_eq_1 and_one_eq)

text \<open>
  For a count of at least 1 the function returns: the low \<open>n\<close> bits of \<open>x\<close>, and
  above them copies of bit \<open>n - 1\<close>.
\<close>

lemma signExtend_bits:
  "1 \<le> n \<Longrightarrow>
     signExtend x n =
       Inr (if bit x (nat (n - 1)) then x AND mask (nat n) OR NOT (mask (nat n))
            else x AND mask (nat n))"
  unfolding signExtend_def Let_def shl_one_minus_one shl_ffff shr_and_one
  by (auto simp add: bit_simps dest: bit_imp_le_length)

lemma signExtend_again:
  "1 \<le> n \<Longrightarrow> signExtend x n = Inr y \<Longrightarrow> signExtend y n = Inr y"
  apply (simp add: signExtend_bits split: if_splits)
   apply (auto simp: bit_simps intro!: bit_word_eqI dest: bit_imp_le_length)
  done

section \<open>Properties of the bit utilities and the memory bus\<close>

text \<open>
  Claim C9. For every 16-bit word \<open>x\<close> and every bit count \<open>n \<ge> 1\<close>, \<open>signExtend\<close>
  returns a word, and extending that word again from \<open>n\<close> bits returns it unchanged:
  \<open>signExtend(signExtend(x, n), n) = signExtend(x, n)\<close>.
\<close>

theorem signExtend_idempotent:
  "1 \<le> n \<Longrightarrow>
     (\<exists>y. signExtend x n = Inr y) \<and>
     bindR (signExtend x n) (\<lambda>y. signExtend y n) = signExtend x n"
proof -
  assume n: "1 \<le> n"
  then obtain y where y: "signExtend x n = Inr y"
    by (simp add: signExtend_bits)
  from n y have "signExtend y n = Inr y"
    by (rule signExtend_again)
  with y show ?thesis
    by (simp add: bindR_Inr)
qed

theorem signExtend_idempotent_witness:
  "(1 :: int) \<le> 5 \<and> signExtend 0x1F 5 = Inr 0xFFFF \<and>
   bindR (signExtend 0x1F 5) (\<lambda>y. signExtend y 5) = signExtend 0x1F 5"
proof -
  have n: "(1 :: int) \<le> 5" by simp
  have v: "signExtend 0x1F 5 = Inr 0xFFFF"
    by (simp add: signExtend_def)
  show ?thesis
    using n v signExtend_idempotent [OF n, of "0x1F"] by simp
qed

text \<open>
  Claim C8. For every 16-bit address \<open>a\<close> other than \<open>MR_KBSR = 0xFE00\<close> and
  \<open>MR_KBDR = 0xFE02\<close> and every 16-bit value \<open>v\<close>, from every state and with every
  host, \<open>memWrite(a, v)\<close> succeeds and a following \<open>memRead(a)\<close> returns \<open>v\<close> and
  leaves the state as the write left it.
\<close>

theorem memWrite_memRead:
  "a \<notin> {MR_KBSR, MR_KBDR} \<Longrightarrow>
     \<exists>s1. memWrite a v s = Inr s1 \<and> memRead h a s1 = Inr (v, s1)"
  by (simp add: memWrite_eq memRead_plain)

theorem memWrite_memRead_witness:
  "(0x3000 :: 16 word) \<notin> {MR_KBSR, MR_KBDR} \<and>
   (\<exists>s1. memWrite 0x3000 0x1234 start = Inr s1 \<and>
      memRead \<lparr>peek_ok = (\<lambda>_. False), byte_in = (\<lambda>_. None), rune_in = (\<lambda>_. None)\<rparr>
        0x3000 s1 = Inr (0x1234, s1))"
proof -
  have a: "(0x3000 :: 16 word) \<notin> {MR_KBSR, MR_KBDR}"
    by (simp add: mr_names)
  show ?thesis
    using a memWrite_memRead [OF a] by simp
qed

section \<open>The ADD handler\<close>

lemma reg_idx: "unat (w AND 0x7 :: 16 word) < R_COUNT"
proof -
  have "unat (w AND 7) \<le> unat (7 :: 16 word)"
    by (rule word_and_le1 [THEN word_le_nat_alt [THEN iffD1]])
  then show ?thesis by (simp add: R_COUNT_def)
qed

lemma reg_idx8: "unat (w AND 0x7 :: 16 word) < 8"
proof -
  have "unat (w AND 7) \<le> unat (7 :: 16 word)"
    by (rule word_and_le1 [THEN word_le_nat_alt [THEN iffD1]])
  then show ?thesis by simp
qed

lemma rd_reg_ok: "i < R_COUNT \<Longrightarrow> rd_reg s i = Inr (reg s i)"
  by (simp add: rd_reg_def)

lemma wr_reg_ok: "i < R_COUNT \<Longrightarrow> wr_reg s i v = Inr (s\<lparr>reg := (reg s)(i := v)\<rparr>)"
  by (simp add: wr_reg_def)

lemma named_regs: "R_R0 < R_COUNT" "R_R7 < R_COUNT" "R_PC < R_COUNT" "R_COND < R_COUNT"
  by (simp_all add: reg_names)

lemma shr15: "(drop_bit 15 (v :: 16 word) \<noteq> 0) = bit v 15"
proof -
  have "drop_bit 15 v = drop_bit 15 v AND 1"
    by (rule bit_word_eqI) (auto simp add: bit_simps dest: bit_imp_le_length)
  then show ?thesis
    by (metis shr_and_one)
qed

lemma updateFlags_eq:
  "unat r < R_COUNT \<Longrightarrow>
     updateFlags r s = Inr (s\<lparr>reg := (reg s)(R_COND := flag_of (reg s (unat r)))\<rparr>)"
  by (simp add: updateFlags_def rd_reg_ok wr_reg_ok named_regs bindR_Inr flag_of_def shr15)

lemma imm_flag: "(drop_bit 5 (instr :: 16 word) AND 1 = 1) = bit instr 5"
  by (simp add: bit_iff_and_drop_bit_eq_1)

lemma eq4: "4 \<le> n \<Longrightarrow> n < 5 \<Longrightarrow> n = (4::nat)"
  by arith

text \<open>The five-bit immediate, extended by the source, is the signed value of the field.\<close>

lemma signExtend5: "signExtend (x AND 0x1F) 5 = Inr (scast (ucast x :: 5 word))"
proof -
  have m: "(0x1F :: 16 word) = mask 5" by (simp add: mask_eq_exp_minus_1)
  have b: "bit (x AND mask 5) 4 = bit x 4" by (simp add: bit_simps)
  have pos: "x AND mask 5 = scast (ucast x :: 5 word)" if "\<not> bit x 4"
    using that by (auto simp add: bit_simps min_def intro!: bit_word_eqI split: if_splits dest: eq4)
  have neg: "x AND mask 5 OR NOT (mask 5) = scast (ucast x :: 5 word)" if "bit x 4"
    using that by (auto simp add: bit_simps min_def intro!: bit_word_eqI split: if_splits dest: eq4)
  have "signExtend (x AND mask 5) 5 =
      Inr (if bit x 4 then x AND mask 5 OR NOT (mask 5) else x AND mask 5)"
    by (simp add: signExtend_bits b and.assoc)
  also have "\<dots> = Inr (scast (ucast x :: 5 word))"
    using pos neg by (cases "bit x 4") simp_all
  finally show ?thesis unfolding m .
qed

lemma op_add_eq:
  "op_add instr s =
     (let DR = unat (drop_bit 9 instr AND 7); SR1 = unat (drop_bit 6 instr AND 7);
          SR2 = unat (instr AND 7);
          operand = (if bit instr 5 then scast (ucast instr :: 5 word) else reg s SR2);
          res = reg s SR1 + operand
      in Inr (s\<lparr>reg := (reg s)(DR := res, R_COND := flag_of res)\<rparr>))"
  by (simp add: op_add_def Let_def rd_reg_ok wr_reg_ok reg_idx bindR_Inr imm_flag signExtend5
      updateFlags_eq)

lemma fetch_plain:
  "reg s R_PC \<noteq> MR_KBSR \<Longrightarrow>
     fetch h s = Inr (memory s (unat (reg s R_PC)), s\<lparr>reg := (reg s)(R_PC := reg s R_PC + 1)\<rparr>)"
  by (simp add: fetch_def rd_reg_ok wr_reg_ok named_regs bindR_Inr memRead_plain)

lemma unat_add16: "unat (a + b :: 16 word) = (unat a + unat b) mod 2 ^ 16"
  by (simp add: unat_word_ariths)

lemma add_example_pos:
  assumes "reg s R_PC \<noteq> MR_KBSR" "reg s R_R0 = 0" "memory s (unat (reg s R_PC)) = 0x1023"
  shows "\<exists>s'. step h s = Some (Inr s') \<and> reg s' R_R0 = 3 \<and> reg s' R_COND = FL_POS \<and>
           reg s' R_PC = reg s R_PC + 1"
  using assms
  by (simp add: step_def fetch_plain dispatch_def op_names op_add_def Let_def
      signExtend_def rd_reg_ok wr_reg_ok named_regs bindR_Inr updateFlags_def reg_names flag_names)

lemma add_example_neg:
  assumes "reg s R_PC \<noteq> MR_KBSR" "reg s R_R0 = 0" "memory s (unat (reg s R_PC)) = 0x103F"
  shows "\<exists>s'. step h s = Some (Inr s') \<and> reg s' R_R0 = 0xFFFF \<and> reg s' R_COND = FL_NEG \<and>
           reg s' R_PC = reg s R_PC + 1"
  using assms
  by (simp add: step_def fetch_plain dispatch_def op_names op_add_def Let_def
      signExtend_def rd_reg_ok wr_reg_ok named_regs bindR_Inr updateFlags_def reg_names flag_names)

text \<open>
  Claim C6. For every state and every instruction word whose opcode is \<open>ADD\<close>, the
  handler succeeds and changes two registers only: \<open>DR\<close> becomes \<open>R[SR1]\<close> plus the
  operand, modulo \<open>2^16\<close>, where the operand is the field \<open>imm5\<close> read as a signed
  five-bit number when bit 5 of the word is set and \<open>R[SR2]\<close> otherwise, and \<open>COND\<close>
  becomes the flag of the new \<open>DR\<close>. In particular, with \<open>R0 = 0\<close>, one step on the
  word \<open>0x1023\<close> gives \<open>R0 = 3\<close>, \<open>COND = POS\<close> and the next \<open>PC\<close>, and one step on
  \<open>0x103F\<close> gives \<open>R0 = 0xFFFF\<close> and \<open>COND = NEG\<close>.
\<close>

theorem add_handler:
  "(drop_bit 12 instr = OP_ADD \<longrightarrow>
      (let DR = unat (drop_bit 9 instr AND 7); SR1 = unat (drop_bit 6 instr AND 7);
           SR2 = unat (instr AND 7);
           operand = (if bit instr 5 then scast (ucast instr :: 5 word) else reg s SR2);
           res = reg s SR1 + operand
       in dispatch h instr s = Some (Inr (s\<lparr>reg := (reg s)(DR := res, R_COND := flag_of res)\<rparr>)) \<and>
          unat res = (unat (reg s SR1) + unat operand) mod 2 ^ 16)) \<and>
   (reg s R_PC \<noteq> MR_KBSR \<and> reg s R_R0 = 0 \<and> memory s (unat (reg s R_PC)) = 0x1023 \<longrightarrow>
      (\<exists>s'. step h s = Some (Inr s') \<and> reg s' R_R0 = 3 \<and> reg s' R_COND = FL_POS \<and>
           reg s' R_PC = reg s R_PC + 1)) \<and>
   (reg s R_PC \<noteq> MR_KBSR \<and> reg s R_R0 = 0 \<and> memory s (unat (reg s R_PC)) = 0x103F \<longrightarrow>
      (\<exists>s'. step h s = Some (Inr s') \<and> reg s' R_R0 = 0xFFFF \<and> reg s' R_COND = FL_NEG \<and>
           reg s' R_PC = reg s R_PC + 1))"
proof (intro conjI impI)
  assume "drop_bit 12 instr = OP_ADD"
  then have "dispatch h instr s = Some (op_add instr s)"
    by (simp add: dispatch_def)
  then show "let DR = unat (drop_bit 9 instr AND 7); SR1 = unat (drop_bit 6 instr AND 7);
           SR2 = unat (instr AND 7);
           operand = (if bit instr 5 then scast (ucast instr :: 5 word) else reg s SR2);
           res = reg s SR1 + operand
       in dispatch h instr s = Some (Inr (s\<lparr>reg := (reg s)(DR := res, R_COND := flag_of res)\<rparr>)) \<and>
          unat res = (unat (reg s SR1) + unat operand) mod 2 ^ 16"
    by (simp add: op_add_eq Let_def unat_add16)
next
  assume "reg s R_PC \<noteq> MR_KBSR \<and> reg s R_R0 = 0 \<and> memory s (unat (reg s R_PC)) = 0x1023"
  then show "\<exists>s'. step h s = Some (Inr s') \<and> reg s' R_R0 = 3 \<and> reg s' R_COND = FL_POS \<and>
           reg s' R_PC = reg s R_PC + 1"
    by (simp add: add_example_pos)
next
  assume "reg s R_PC \<noteq> MR_KBSR \<and> reg s R_R0 = 0 \<and> memory s (unat (reg s R_PC)) = 0x103F"
  then show "\<exists>s'. step h s = Some (Inr s') \<and> reg s' R_R0 = 0xFFFF \<and> reg s' R_COND = FL_NEG \<and>
           reg s' R_PC = reg s R_PC + 1"
    by (simp add: add_example_neg)
qed

theorem add_handler_witness:
  "drop_bit 12 (0x1023 :: 16 word) = OP_ADD \<and>
   dispatch silent 0x1023 (booted 0x1023) =
     Some (Inr ((booted 0x1023)\<lparr>reg := (reg (booted 0x1023))(0 := 3, R_COND := FL_POS)\<rparr>)) \<and>
   (\<exists>s'. step silent (booted 0x1023) = Some (Inr s') \<and> reg s' R_R0 = 3 \<and>
      reg s' R_COND = FL_POS \<and> reg s' R_PC = 0x3001) \<and>
   (\<exists>s'. step silent (booted 0x103F) = Some (Inr s') \<and> reg s' R_R0 = 0xFFFF \<and>
      reg s' R_COND = FL_NEG \<and> reg s' R_PC = 0x3001)"
proof -
  have op: "drop_bit 12 (0x1023 :: 16 word) = OP_ADD"
    by (simp add: OP_ADD_def)
  have pos: "reg (booted 0x1023) R_PC \<noteq> MR_KBSR \<and> reg (booted 0x1023) R_R0 = 0 \<and>
      memory (booted 0x1023) (unat (reg (booted 0x1023) R_PC)) = 0x1023"
    by (simp add: booted_def start_def reg_names mr_names)
  have neg: "reg (booted 0x103F) R_PC \<noteq> MR_KBSR \<and> reg (booted 0x103F) R_R0 = 0 \<and>
      memory (booted 0x103F) (unat (reg (booted 0x103F) R_PC)) = 0x103F"
    by (simp add: booted_def start_def reg_names mr_names)
  have pc: "reg (booted w) R_PC + 1 = 0x3001" for w
    by (simp add: booted_def start_def reg_names)
  have r0: "reg (booted w) 0 = 0" for w
    by (simp add: booted_def start_def reg_names)
  from add_handler [of "0x1023" "booted 0x1023" silent] op pos
  have a: "dispatch silent 0x1023 (booted 0x1023) =
     Some (Inr ((booted 0x1023)\<lparr>reg := (reg (booted 0x1023))(0 := 3, R_COND := FL_POS)\<rparr>))"
    and b: "\<exists>s'. step silent (booted 0x1023) = Some (Inr s') \<and> reg s' R_R0 = 3 \<and>
      reg s' R_COND = FL_POS \<and> reg s' R_PC = 0x3001"
    by (simp_all add: Let_def r0 pc flag_of_def flag_names)
  from add_handler [of "0x103F" "booted 0x103F" silent] neg
  have c: "\<exists>s'. step silent (booted 0x103F) = Some (Inr s') \<and> reg s' R_R0 = 0xFFFF \<and>
      reg s' R_COND = FL_NEG \<and> reg s' R_PC = 0x3001"
    by (simp add: pc)
  from op a b c show ?thesis by simp
qed

section \<open>Reserved opcodes\<close>

lemma dispatch_reserved:
  "drop_bit 12 instr = OP_RTI \<or> drop_bit 12 instr = OP_RES \<Longrightarrow>
     dispatch h instr s = Some (Inr s)"
  by (auto simp add: dispatch_def op_names)

text \<open>
  Claim C2. The claim asks that an instruction of opcode 8 (\<open>RTI\<close>) or 13 (\<open>RES\<close>) ends
  the execution with the message \<open>bad opcode\<close>. In the source the two cases have empty
  bodies and do not reach the \<open>panic\<close> of the \<open>default\<close> case: one step on the word
  0x8000, and one on 0xD000, returns without a fault, having changed nothing but the
  program counter, and the loop goes on.
\<close>

theorem reserved_opcodes_continue:
  "step silent (booted 0x8000) =
     Some (Inr ((booted 0x8000)\<lparr>reg := (reg (booted 0x8000))(R_PC := 0x3001)\<rparr>)) \<and>
   step silent (booted 0xD000) =
     Some (Inr ((booted 0xD000)\<lparr>reg := (reg (booted 0xD000))(R_PC := 0x3001)\<rparr>))"
  by (simp add: step_def fetch_plain dispatch_def op_names booted_def start_def reg_names mr_names)

section \<open>The string traps\<close>

text \<open>
  Claim C4. The claim asks that \<open>TRAP 0x22\<close> writes the characters before the first
  zero word and nothing more, three characters for \<open>Hi!\<close>. The loop of the source
  prints each word before it tests it: on \<open>Hi!\<close> followed by a zero word it writes four
  characters, the last one the character 0, and the machine keeps running.
\<close>

theorem puts_prints_terminator:
  "\<exists>s'. step silent (with_trap TRAP_PUTS hi_string) = Some (Inr s') \<and>
     stdout s' = [Rune 0x48, Rune 0x69, Rune 0x21, Rune 0] \<and> running s'"
  apply (simp add: step_def fetch_plain with_trap_def start_def reg_names mr_names trap_names
      dispatch_def op_names op_trap_def rd_reg_ok wr_reg_ok bindR_Inr trap_puts_def hi_string_def)
  apply (subst puts_loop.simps, simp add: rd_mem_def MEMORY_MAX_def)
  apply (subst puts_loop.simps, simp add: rd_mem_def MEMORY_MAX_def)
  apply (subst puts_loop.simps, simp add: rd_mem_def MEMORY_MAX_def)
  apply (subst puts_loop.simps, simp add: rd_mem_def MEMORY_MAX_def)
  done

text \<open>
  Claim C1. The claim asks that \<open>TRAP 0x24\<close> advances one word per iteration. The loop
  of the source advances two: with the words 0x4241 (\<open>AB\<close>), 0x4443 (\<open>CD\<close>) and 0 at
  \<open>R0\<close> it writes \<open>AB\<close> only, the second word being skipped.
\<close>

theorem putsp_skips_words:
  "\<exists>s'. step silent (with_trap TRAP_PUTSP abcd_packed) = Some (Inr s') \<and>
     stdout s' = [Rune 0x41, Rune 0x42] \<and> running s'"
  apply (simp add: step_def fetch_plain with_trap_def start_def reg_names mr_names trap_names
      dispatch_def op_names op_trap_def rd_reg_ok wr_reg_ok bindR_Inr trap_putsp_def abcd_packed_def)
  apply (subst putsp_loop.simps, simp add: rd_mem_def MEMORY_MAX_def)
  apply (subst putsp_loop.simps, simp add: rd_mem_def MEMORY_MAX_def)
  done

section \<open>The image loader\<close>

lemma read_u16_rest: "snd (read_u16 buf) = drop 2 buf"
  by (simp add: read_u16_def split: list.splits)

lemma word_at_drop2: "word_at (drop 2 buf) k = word_at buf (Suc k)"
  by (simp add: word_at_def add.commute)

lemma unat_succ16: "i < (65535 :: 16 word) \<Longrightarrow> unat (i + 1) = Suc (unat i)"
proof -
  assume "i < 65535"
  then have "unat i < 65535" by (simp add: word_less_nat_alt)
  then show ?thesis by (simp add: unat_word_ariths)
qed

lemma suc_diff: "Suc n \<le> x \<Longrightarrow> Suc (x - Suc n) = x - n"
  by arith

text \<open>
  The loop writes every cell from \<open>i\<close> to 0xFFFE: the words of the buffer, then zeros.
  The cell 0xFFFF and the cells below \<open>i\<close> keep their contents.
\<close>

lemma load_loop_eq:
  "load_loop buf i s =
     Inr (s\<lparr>memory := (\<lambda>a. if unat i \<le> a \<and> a < 65535 then word_at buf (a - unat i)
                              else memory s a)\<rparr>)"
proof (induction buf i s rule: load_loop.induct)
  case (1 buf i s)
  show ?case
  proof (cases "i < 65535")
    case False
    then have "65535 \<le> unat i" by (simp add: word_less_nat_alt)
    then have "(\<lambda>a. if unat i \<le> a \<and> a < 65535 then word_at buf (a - unat i) else memory s a)
        = memory s"
      by (auto simp add: fun_eq_iff)
    with False show ?thesis by (subst load_loop.simps) simp
  next
    case True
    obtain val buf1 where r: "read_u16 buf = (val, buf1)" by (cases "read_u16 buf")
    have b1: "buf1 = drop 2 buf" using read_u16_rest [of buf] r by simp
    have v: "val = word_at buf 0" using r by (simp add: word_at_def)
    let ?s1 = "s\<lparr>memory := (memory s)(unat i := val)\<rparr>"
    have w: "wr_mem s (unat i) val = Inr ?s1" by (rule wr_mem_word)
    have ih: "load_loop buf1 (i + 1) ?s1 =
       Inr (?s1\<lparr>memory := (\<lambda>a. if unat (i + 1) \<le> a \<and> a < 65535
                                then word_at buf1 (a - unat (i + 1))
                                else memory ?s1 a)\<rparr>)"
      using "1.IH" [OF True r [symmetric] w] .
    have lt: "unat i < 65535" using True by (simp add: word_less_nat_alt)
    have "(\<lambda>a. if unat (i + 1) \<le> a \<and> a < 65535 then word_at buf1 (a - unat (i + 1))
               else memory ?s1 a)
        = (\<lambda>a. if unat i \<le> a \<and> a < 65535 then word_at buf (a - unat i) else memory s a)"
      using lt by (auto simp add: fun_eq_iff unat_succ16 [OF True] b1 word_at_drop2 v suc_diff
          dest: le_antisym)
    with ih True r w show ?thesis
      by (subst load_loop.simps) simp
  qed
qed

text \<open>Loading a file of at least three bytes succeeds, with the memory of \<open>load_loop_eq\<close>.\<close>

lemma readImage_eq:
  assumes "fs path = Some content" and "drop 2 content \<noteq> []"
  shows "readImage fs path s =
     Inr (True, s\<lparr>opened := opened s @ [path],
                  memory := (\<lambda>a. if unat (fst (read_u16 (take 2 content))) \<le> a \<and> a < 65535
                     then word_at (drop 2 content @ [0, 0])
                            (a - unat (fst (read_u16 (take 2 content))))
                     else memory s a)\<rparr>)"
proof -
  from assms(2) have len: "2 < length content" by (cases "length content \<le> 2") auto
  then have ne: "content \<noteq> []" by auto
  from len have p2: "length content - (length content - 2) = 2"
    and m2: "min (length content) 2 = 2" by simp_all
  have r2: "replicate 2 (0 :: 8 word) = [0, 0]" by (simp add: numeral_2_eq_2)
  show ?thesis
    unfolding readImage_def Let_def load_loop_eq bindR_Inr
    using assms ne by (simp add: p2 m2 r2 cong: if_cong)
qed

text \<open>
  Claim C3. The claim asks that loading stops at the end of the file, or once address
  0xFFFF has been written, and modifies no cell past the file's data. The loop of the
  source neither looks at the end of the file nor reaches 0xFFFF. Loading the image of
  origin 0x3000 with the one word 0xF025 into a memory that holds 0xBEEF at 0x3001
  writes the word and then clears 0x3001 and every cell up to 0xFFFE; loading the image
  of origin 0xFFFF with the one word 0x1234 reports success and leaves 0xFFFF zero.
\<close>

theorem readImage_zero_fills:
  "(\<exists>s'. readImage image_fs ''prog.obj'' (start\<lparr>memory := (memory start)(0x3001 := 0xBEEF)\<rparr>)
           = Inr (True, s') \<and>
      memory s' 0x3000 = 0xF025 \<and> memory s' 0x3001 = 0 \<and> memory s' 0xFFFE = 0) \<and>
   (\<exists>s'. readImage image_fs ''top.obj'' start = Inr (True, s') \<and> memory s' 0xFFFF = 0)"
proof -
  have a: "image_fs ''prog.obj'' = Some [0x30, 0x00, 0xF0, 0x25]"
    and b: "image_fs ''top.obj'' = Some [0xFF, 0xFF, 0x12, 0x34]"
    by (simp_all add: image_fs_def)
  show ?thesis
    by (simp add: readImage_eq [of image_fs _ _ , OF a] readImage_eq [of image_fs _ _, OF b]
        read_u16_def word_at_def start_def)
qed

section \<open>The command line\<close>

lemma step_halt:
  assumes "reg s R_PC \<noteq> MR_KBSR" and "memory s (unat (reg s R_PC)) = 0xF025"
  shows "step h s =
    Some (Inr (s\<lparr>reg := (reg s)(R_PC := reg s R_PC + 1, R_R7 := reg s R_PC + 1),
                 stdout := stdout s @ [Text (''HALT'' @ [CHR 0x0A])], running := False\<rparr>))"
  using assms
  by (simp add: step_def fetch_plain dispatch_def op_names op_trap_def trap_names trap_halt_def
      rd_reg_ok wr_reg_ok named_regs bindR_Inr)

lemma run_halt:
  assumes "running s" and "reg s R_PC \<noteq> MR_KBSR" and "memory s (unat (reg s R_PC)) = 0xF025"
  shows "run h s =
    Some (Return (s\<lparr>reg := (reg s)(R_PC := reg s R_PC + 1, R_R7 := reg s R_PC + 1),
                 stdout := stdout s @ [Text (''HALT'' @ [CHR 0x0A])], running := False\<rparr>))"
  apply (subst run.simps)
  apply (simp add: assms step_halt)
  apply (subst run.simps)
  apply simp
  done

lemma main_path:
  "main silent path_fs [''lc3'', ''prog.obj''] =
     Some (Exit 1 (start\<lparr>opened := [''lc3''], stdout := [Text ''failed to load image: lc3'']\<rparr>))"
  apply (simp add: main_def)
  apply (subst load_images.simps)
  apply (simp add: readImage_def path_fs_def start_def)
  done

lemma main_exe:
  "\<exists>s'. main silent exe_fs [''./lc3'', ''prog.obj''] = Some (Return s') \<and>
     opened s' = [''./lc3'', ''prog.obj''] \<and> stdout s' = [Text (''HALT'' @ [CHR 0x0A])]"
proof -
  have a: "exe_fs ''./lc3'' = Some [0x7F, 0x45, 0x4C, 0x46]"
    and b: "exe_fs ''prog.obj'' = Some [0x30, 0x00, 0xF0, 0x25]"
    by (simp_all add: exe_fs_def)
  note ri = readImage_eq [of exe_fs _ _ , OF a] readImage_eq [of exe_fs _ _, OF b]
  have "\<exists>s1. load_images exe_fs [''./lc3'', ''prog.obj''] 0 start = Inr (None, s1) \<and>
      opened s1 = [''./lc3'', ''prog.obj''] \<and> memory s1 0x3000 = 0xF025 \<and> stdout s1 = []"
    apply (subst load_images.simps, simp add: ri)
    apply (subst load_images.simps, simp add: ri)
    apply (subst load_images.simps, simp add: ri)
    apply (simp add: start_def read_u16_def word_at_def)
    done
  then obtain s1 where l: "load_images exe_fs [''./lc3'', ''prog.obj''] 0 start = Inr (None, s1)"
    and o: "opened s1 = [''./lc3'', ''prog.obj'']" and m: "memory s1 0x3000 = 0xF025"
    and p: "stdout s1 = []"
    by blast
  let ?s2 = "s1\<lparr>reg := (reg s1)(R_COND := FL_ZRO, R_PC := 0x3000), running := True\<rparr>"
  have bt: "boot s1 = Inr ?s2"
    by (simp add: boot_def wr_reg_ok named_regs bindR_Inr)
  have r: "run silent ?s2 =
      Some (Return (?s2\<lparr>reg := (reg ?s2)(R_PC := reg ?s2 R_PC + 1, R_R7 := reg ?s2 R_PC + 1),
                 stdout := stdout ?s2 @ [Text (''HALT'' @ [CHR 0x0A])], running := False\<rparr>))"
    by (rule run_halt) (simp_all add: m mr_names reg_names)
  show ?thesis
    by (simp add: main_def l bt r o p)
qed

text \<open>
  Claim C5. The claim asks that the program loads the image-file arguments and no
  other file. The loop of the source starts at index 0 of \<open>os.Args\<close>, the program's own
  name. Started as \<open>lc3 prog.obj\<close> where no file \<open>lc3\<close> is in the working directory,
  it opens \<open>lc3\<close>, prints that \<open>lc3\<close> failed to load and exits with code 1 without
  opening \<open>prog.obj\<close>; started as \<open>./lc3 prog.obj\<close> it loads its own executable as an
  image before \<open>prog.obj\<close>, then runs to \<open>HALT\<close>.
\<close>

theorem main_loads_program_name:
  "main silent path_fs [''lc3'', ''prog.obj''] =
     Some (Exit 1 (start\<lparr>opened := [''lc3''], stdout := [Text ''failed to load image: lc3'']\<rparr>)) \<and>
   (\<exists>s'. main silent exe_fs [''./lc3'', ''prog.obj''] = Some (Return s') \<and>
     opened s' = [''./lc3'', ''prog.obj''] \<and> stdout s' = [Text (''HALT'' @ [CHR 0x0A])])"
  using main_path main_exe by simp

section \<open>Condition flags\<close>

lemma bindR_eq_Inr: "(bindR m f = Inr y) = (\<exists>v. m = Inr v \<and> f v = Inr y)"
  by (cases m) (simp_all add: bindR_def)

lemma bindR_eq_Inl: "(bindR m f = Inl e) = (m = Inl e \<or> (\<exists>v. m = Inr v \<and> f v = Inl e))"
  by (cases m) (simp_all add: bindR_def)

lemma kb_distinct: "unat MR_KBSR \<noteq> unat MR_KBDR"
  by (simp add: mr_names)

lemma memRead_eq:
  "memRead h a s =
     (if a = MR_KBSR then
        (if peek_ok h (host_calls s) then
           (case byte_in h (host_calls s + 1) of
              None \<Rightarrow> Inl (Panic ''couldn't read from I/O'')
            | Some c \<Rightarrow>
                Inr (push_bit 15 1,
                     s\<lparr>host_calls := host_calls s + 2,
                       memory := (memory s)(unat MR_KBSR := push_bit 15 1, unat MR_KBDR := ucast c)\<rparr>))
         else Inr (0, s\<lparr>host_calls := host_calls s + 1, memory := (memory s)(unat MR_KBSR := 0)\<rparr>))
      else Inr (memory s (unat a), s))"
  using unat16_lt [of a]
  by (simp add: memRead_def peekChar_def bindR_Inr bindR_Inl wr_mem_word rd_mem_word kb_distinct
      split: option.splits)

lemma memRead_Inr: "memRead h a s = Inr (v, s1) \<Longrightarrow>
    reg s1 = reg s \<and> running s1 = running s \<and> stdout s1 = stdout s \<and> opened s1 = opened s"
  by (auto simp add: memRead_eq split: if_splits option.splits)

lemma memRead_Inl: "memRead h a s = Inl e \<Longrightarrow> io_fault e"
  by (auto simp add: memRead_eq io_fault_def split: if_splits option.splits)

lemma se9: "\<exists>y. signExtend x 9 = Inr y" by (simp add: signExtend_bits)
lemma se6: "\<exists>y. signExtend x 6 = Inr y" by (simp add: signExtend_bits)
lemma se11: "\<exists>y. signExtend x 11 = Inr y" by (simp add: signExtend_bits)

lemmas hsimps = Let_def rd_reg_ok wr_reg_ok reg_idx named_regs bindR_Inr bindR_Inl updateFlags_eq
  signExtend_bits memWrite_eq

lemma reg_distinct:
  "unat (w AND 0x7 :: 16 word) \<noteq> R_COND" "R_COND \<noteq> unat (w AND 0x7 :: 16 word)"
  "unat (w AND 0x7 :: 16 word) \<noteq> R_PC" "R_PC \<noteq> unat (w AND 0x7 :: 16 word)"
  "R_R0 \<noteq> R_COND" "R_COND \<noteq> R_R0" "R_R7 \<noteq> R_COND" "R_COND \<noteq> R_R7"
  "R_PC \<noteq> R_COND" "R_COND \<noteq> R_PC" "R_R7 \<noteq> R_PC" "R_PC \<noteq> R_R7"
  using reg_idx8 [of w] by (simp_all add: reg_names)

lemma op_add_flags: "sets_flags (unat (drop_bit 9 instr AND 7)) (op_add instr s)"
  by (simp add: op_add_def hsimps reg_distinct sets_flags_def)

lemma op_and_flags: "sets_flags (unat (drop_bit 9 instr AND 7)) (op_and instr s)"
  by (simp add: op_and_def hsimps reg_distinct sets_flags_def)

lemma op_not_flags: "sets_flags (unat (drop_bit 9 instr AND 7)) (op_not instr s)"
  by (simp add: op_not_def hsimps reg_distinct sets_flags_def)

lemma op_lea_flags: "sets_flags (unat (drop_bit 9 instr AND 7)) (op_lea instr s)"
  by (simp add: op_lea_def hsimps reg_distinct sets_flags_def)

lemma op_br_flags: "keeps_flags s (op_br instr s)"
  by (simp add: op_br_def hsimps reg_distinct keeps_flags_def)

lemma op_jmp_flags: "keeps_flags s (op_jmp instr s)"
  by (simp add: op_jmp_def hsimps reg_distinct keeps_flags_def)

lemma op_jsr_flags: "keeps_flags s (op_jsr instr s)"
  by (simp add: op_jsr_def hsimps reg_distinct keeps_flags_def)

lemma op_st_flags: "keeps_flags s (op_st instr s)"
  by (simp add: op_st_def hsimps reg_distinct keeps_flags_def)

lemma op_str_flags: "keeps_flags s (op_str instr s)"
  by (simp add: op_str_def hsimps reg_distinct keeps_flags_def)

lemma memRead_cases:
  obtains (ok) v s1 where "memRead h a s = Inr (v, s1)" "reg s1 = reg s"
  | (io) e where "memRead h a s = Inl e" "io_fault e"
proof (cases "memRead h a s")
  case (Inl e)
  then show ?thesis using memRead_Inl io by blast
next
  case (Inr p)
  obtain v s1 where p: "p = (v, s1)" by (cases p)
  with Inr have "memRead h a s = Inr (v, s1)" by simp
  moreover from this have "reg s1 = reg s" using memRead_Inr by blast
  ultimately show ?thesis by (rule ok)
qed

lemma op_ld_flags: "sets_flags (unat (drop_bit 9 instr AND 7)) (op_ld h instr s)"
proof -
  obtain off where o: "signExtend (instr AND 0x1FF) 9 = Inr off" using se9 by blast
  show ?thesis
    by (cases rule: memRead_cases [of h "reg s R_PC + off" s])
       (simp_all add: op_ld_def o Let_def rd_reg_ok wr_reg_ok reg_idx named_regs bindR_Inr bindR_Inl
          updateFlags_eq reg_distinct sets_flags_def)
qed

lemma op_ldr_flags: "sets_flags (unat (drop_bit 9 instr AND 7)) (op_ldr h instr s)"
proof -
  obtain off where o: "signExtend (instr AND 0x3F) 6 = Inr off" using se6 by blast
  show ?thesis
    by (cases rule: memRead_cases [of h "reg s (unat (drop_bit 6 instr AND 7)) + off" s])
       (simp_all add: op_ldr_def o Let_def rd_reg_ok wr_reg_ok reg_idx named_regs bindR_Inr bindR_Inl
          updateFlags_eq reg_distinct sets_flags_def)
qed

lemma op_ldi_flags: "sets_flags (unat (drop_bit 9 instr AND 7)) (op_ldi h instr s)"
proof -
  obtain off where o: "signExtend (instr AND 0x1FF) 9 = Inr off" using se9 by blast
  show ?thesis
  proof (cases rule: memRead_cases [of h "reg s R_PC + off" s])
    case (io e)
    then show ?thesis
      by (simp add: op_ldi_def o Let_def rd_reg_ok named_regs bindR_Inr bindR_Inl sets_flags_def)
  next
    case (ok a s1)
    show ?thesis
      by (cases rule: memRead_cases [of h a s1])
         (simp_all add: op_ldi_def o ok Let_def rd_reg_ok wr_reg_ok reg_idx named_regs bindR_Inr
            bindR_Inl updateFlags_eq reg_distinct sets_flags_def)
  qed
qed

lemma op_sti_flags: "keeps_flags s (op_sti h instr s)"
proof -
  obtain off where o: "signExtend (instr AND 0x1FF) 9 = Inr off" using se9 by blast
  show ?thesis
    by (cases rule: memRead_cases [of h "reg s R_PC + off" s])
       (simp_all add: op_sti_def o Let_def rd_reg_ok wr_reg_ok reg_idx named_regs bindR_Inr bindR_Inl
          memWrite_eq reg_distinct keeps_flags_def)
qed

lemma puts_loop_frame:
  assumes "puts_loop a i s = Some res"
  shows "frame s res"
proof (rule puts_loop.raw_induct [where P = "\<lambda>a i s res. frame s res", OF _ assms])
  fix pl :: "16 word \<Rightarrow> 16 word \<Rightarrow> machine \<Rightarrow> (fault + machine) option"
    and a i :: "16 word" and s :: machine and res :: "fault + machine"
  assume IH: "\<And>a i s res. pl a i s = Some res \<Longrightarrow> frame s res"
    and body: "(case rd_mem s (unat (a + i)) of
        Inl e \<Rightarrow> Some (Inl e)
      | Inr w \<Rightarrow>
          (let chr = w AND 0xFFFF;
               s1 = s\<lparr>stdout := stdout s @ [Rune chr]\<rparr>;
               i1 = i + 1
           in if chr \<noteq> 0x0 then pl a i1 s1 else Some (Inr s1))) = Some res"
  show "frame s res"
  proof (cases "memory s (unat (a + i)) AND 0xFFFF = 0")
    case True
    with body show ?thesis by (auto simp add: rd_mem_word Let_def frame_def)
  next
    case False
    with body have "pl a (i + 1)
        (s\<lparr>stdout := stdout s @ [Rune (memory s (unat (a + i)) AND 0xFFFF)]\<rparr>) = Some res"
      by (simp add: rd_mem_word Let_def)
    from IH [OF this] show ?thesis by (simp add: frame_def split: sum.splits)
  qed
qed

lemma putsp_loop_frame:
  assumes "putsp_loop a i s = Some res"
  shows "frame s res"
proof (rule putsp_loop.raw_induct [where P = "\<lambda>a i s res. frame s res", OF _ assms])
  fix pl :: "16 word \<Rightarrow> 16 word \<Rightarrow> machine \<Rightarrow> (fault + machine) option"
    and a i :: "16 word" and s :: machine and res :: "fault + machine"
  assume IH: "\<And>a i s res. pl a i s = Some res \<Longrightarrow> frame s res"
    and body: "(case rd_mem s (unat (a + i)) of
        Inl e \<Rightarrow> Some (Inl e)
      | Inr chr \<Rightarrow>
          if chr = 0 then Some (Inr s)
          else
            (let char1 = chr AND 0xFF;
                 s1 = s\<lparr>stdout := stdout s @ [Rune char1]\<rparr>;
                 char2 = drop_bit 8 chr;
                 s2 = (if char2 \<noteq> 0 then s1\<lparr>stdout := stdout s1 @ [Rune char2]\<rparr> else s1);
                 i1 = i + 1
             in pl a (i1 + 1) s2)) = Some res"
  show "frame s res"
  proof (cases "memory s (unat (a + i)) = 0")
    case True
    with body show ?thesis by (auto simp add: rd_mem_word Let_def frame_def)
  next
    case False
    with body obtain s2 where c: "pl a (i + 1 + 1) s2 = Some res"
      and f: "reg s2 = reg s" "memory s2 = memory s" "running s2 = running s"
      by (simp add: rd_mem_word Let_def split: if_splits)
    from IH [OF c] f show ?thesis by (simp add: frame_def split: sum.splits)
  qed
qed



lemma unat_R0: "unat (of_nat R_R0 :: 16 word) = R_R0"
  by (simp add: R_R0_def)

lemma read_rune_flags: "sets_flags R_R0 (read_rune_R0 h s)"
  by (simp add: read_rune_R0_def sets_flags_def io_fault_def hsimps reg_distinct unat_R0
      split: option.splits)

lemma frame_keeps: "frame s res \<Longrightarrow> reg s0 R_COND = reg s R_COND \<Longrightarrow> keeps_flags s0 res"
  by (simp add: frame_def keeps_flags_def split: sum.splits)

lemma op_trap_eq:
  "op_trap h instr s =
     (let s1 = s\<lparr>reg := (reg s)(R_R7 := reg s R_PC)\<rparr>; vect = instr AND 0xFF in
      if vect = TRAP_GETC then Some (read_rune_R0 h s1)
      else if vect = TRAP_OUT then Some (Inr (s1\<lparr>stdout := stdout s1 @ [Rune (reg s1 R_R0)]\<rparr>))
      else if vect = TRAP_PUTS then puts_loop (reg s1 R_R0) 0 s1
      else if vect = TRAP_PUTSP then putsp_loop (reg s1 R_R0) 0 s1
      else if vect = TRAP_IN then
        Some (read_rune_R0 h (s1\<lparr>stdout := stdout s1 @ [Text (''Enter character: '' @ [CHR 0x0A])]\<rparr>))
      else if vect = TRAP_HALT then
        Some (Inr (s1\<lparr>stdout := stdout s1 @ [Text (''HALT'' @ [CHR 0x0A])], running := False\<rparr>))
      else Some (Inr s1))"
  by (simp add: op_trap_def hsimps trap_getc_def trap_in_def trap_out_def trap_halt_def
      trap_puts_def trap_putsp_def)

lemma op_trap_flags:
  assumes "op_trap h instr s = Some res"
  shows "if instr AND 0xFF \<in> {TRAP_GETC, TRAP_IN} then sets_flags R_R0 res else keeps_flags s res"
proof -
  let ?s1 = "s\<lparr>reg := (reg s)(R_R7 := reg s R_PC)\<rparr>"
  have c: "reg s R_COND = reg ?s1 R_COND" by (simp add: reg_distinct)
  have p: "keeps_flags s res" if "puts_loop (reg ?s1 R_R0) 0 ?s1 = Some res"
    using frame_keeps [OF puts_loop_frame [OF that] c] .
  have q: "keeps_flags s res" if "putsp_loop (reg ?s1 R_R0) 0 ?s1 = Some res"
    using frame_keeps [OF putsp_loop_frame [OF that] c] .
  from assms p q show ?thesis
    using read_rune_flags [of h ?s1]
      read_rune_flags [of h "?s1\<lparr>stdout := stdout ?s1 @ [Text (''Enter character: '' @ [CHR 0x0A])]\<rparr>"]
    by (auto simp add: op_trap_eq Let_def trap_names keeps_flags_def reg_distinct split: if_splits)
qed


lemma lt16:
  "(n :: nat) < 16 \<Longrightarrow>
     n \<in> {0, 1, 2, 3, 4, 5, 6, 7, 8, 9, 10, 11, 12, 13, 14, 15}"
  unfolding insert_iff empty_iff by arith

lemma op_range:
  "drop_bit 12 (instr :: 16 word) \<in> {0, 1, 2, 3, 4, 5, 6, 7, 8, 9, 10, 11, 12, 13, 14, 15}"
proof -
  let ?op = "drop_bit 12 instr"
  have b: "unat instr < 65536"
    using unsigned_less [of instr, where ?'a = nat] by simp
  have "unat ?op = drop_bit 12 (unat instr)"
    by (rule unat_drop_bit_eq)
  then have "unat ?op = unat instr div 4096"
    by (simp add: drop_bit_eq_div)
  with b have "unat ?op < 16"
    by simp
  then have "unat ?op \<in> {0, 1, 2, 3, 4, 5, 6, 7, 8, 9, 10, 11, 12, 13, 14, 15}"
    by (rule lt16)
  then have "of_nat (unat ?op) \<in> (of_nat ` {0, 1, 2, 3, 4, 5, 6, 7, 8, 9, 10, 11, 12, 13, 14, 15} :: 16 word set)"
    by (rule imageI)
  then show ?thesis by simp
qed

lemmas handler_flags = op_add_flags op_and_flags op_not_flags op_lea_flags op_ld_flags op_ldi_flags
  op_ldr_flags op_br_flags op_jmp_flags op_jsr_flags op_st_flags op_sti_flags op_str_flags

lemma keeps_same: "keeps_flags s (Inr s)"
  by (simp add: keeps_flags_def)

lemma dispatch_flags:
  assumes "dispatch h instr s = Some res"
  shows "if flag_setting instr then sets_flags (unat (drop_bit 9 instr AND 7)) res
         else if input_trap instr then sets_flags R_R0 res
         else keeps_flags s res"
  using op_range [of instr] assms op_trap_flags [of h instr s res]
  by (auto simp add: dispatch_def Let_def flag_setting_def input_trap_def op_names
      handler_flags keeps_same split: if_splits)


lemma fetch_Inr: "fetch h s = Inr (instr, s1) \<Longrightarrow> reg s1 = (reg s)(R_PC := reg s R_PC + 1)"
  by (cases rule: memRead_cases [of h "reg s R_PC" s])
     (auto simp add: fetch_def rd_reg_ok wr_reg_ok named_regs bindR_Inr bindR_Inl)


lemma flag_of_range: "flag_of v \<in> {FL_POS, FL_ZRO, FL_NEG}"
  by (simp add: flag_of_def)

lemma step_cond:
  assumes "step h s = Some (Inr s')" and "reg s R_COND \<in> {FL_POS, FL_ZRO, FL_NEG}"
  shows "reg s' R_COND \<in> {FL_POS, FL_ZRO, FL_NEG}"
proof -
  from assms(1) obtain instr s1 where f: "fetch h s = Inr (instr, s1)"
    and d: "dispatch h instr s1 = Some (Inr s')"
    by (auto simp add: step_def split: sum.splits)
  from fetch_Inr [OF f] have c: "reg s1 R_COND = reg s R_COND"
    by (simp add: reg_distinct)
  from dispatch_flags [OF d] c assms(2) flag_of_range [of "reg s' (unat (drop_bit 9 instr AND 7))"]
    flag_of_range [of "reg s' R_R0"]
  show ?thesis
    by (auto simp add: sets_flags_def keeps_flags_def split: if_splits)
qed

lemma boot_eq:
  "boot s = Inr (s\<lparr>reg := (reg s)(R_COND := FL_ZRO, R_PC := 0x3000), running := True\<rparr>)"
  by (simp add: boot_def wr_reg_ok named_regs bindR_Inr)

lemma reachable_cond: "reachable h s \<Longrightarrow> reg s R_COND \<in> {FL_POS, FL_ZRO, FL_NEG}"
proof (induction rule: reachable.induct)
  case (reachable_boot s0 s)
  then show ?case by (auto simp add: boot_eq reg_distinct)
next
  case (reachable_step s s')
  then show ?case using step_cond by blast
qed

text \<open>
  Claim C7. In every state the execution loop reaches from the state \<open>boot\<close> leaves
  (where \<open>COND = ZRO\<close>), \<open>COND\<close> is one of the three flags \<open>POS = 0x1\<close>, \<open>ZRO = 0x2\<close>,
  \<open>NEG = 0x4\<close>; and whenever an instruction fetched there is executed without a fault,
  \<open>COND\<close> is again one of the three flags, and for the flag-setting opcodes (\<open>ADD\<close>,
  \<open>AND\<close>, \<open>NOT\<close>, \<open>LD\<close>, \<open>LDI\<close>, \<open>LDR\<close>, \<open>LEA\<close>) it is the flag of the value now in
  \<open>DR\<close>, for the traps \<open>GETC\<close> and \<open>IN\<close> the flag of the value now in \<open>R0\<close>: \<open>ZRO\<close> if
  the value is zero, \<open>NEG\<close> if its high bit is 1, \<open>POS\<close> otherwise.
\<close>

theorem cond_invariant:
  "reachable h s \<Longrightarrow>
     reg s R_COND \<in> {FL_POS, FL_ZRO, FL_NEG} \<and>
     FL_POS = 0x1 \<and> FL_ZRO = 0x2 \<and> FL_NEG = 0x4 \<and>
     (\<forall>instr s1 s'. fetch h s = Inr (instr, s1) \<and> dispatch h instr s1 = Some (Inr s') \<longrightarrow>
        reg s' R_COND \<in> {FL_POS, FL_ZRO, FL_NEG} \<and>
        (flag_setting instr \<longrightarrow>
           reg s' R_COND = flag_of (reg s' (unat (drop_bit 9 instr AND 7)))) \<and>
        (input_trap instr \<longrightarrow> reg s' R_COND = flag_of (reg s' R_R0)))"
proof (intro conjI allI impI)
  assume r: "reachable h s"
  then show "reg s R_COND \<in> {FL_POS, FL_ZRO, FL_NEG}" by (rule reachable_cond)
  show "FL_POS = 0x1" "FL_ZRO = 0x2" "FL_NEG = 0x4" by (simp_all add: flag_names)
  fix instr s1 s'
  assume a: "fetch h s = Inr (instr, s1) \<and> dispatch h instr s1 = Some (Inr s')"
  then have "step h s = Some (Inr s')" by (simp add: step_def)
  from step_cond [OF this reachable_cond [OF r]]
  show "reg s' R_COND \<in> {FL_POS, FL_ZRO, FL_NEG}" .
  from a have d: "dispatch h instr s1 = Some (Inr s')" by simp
  {
    assume "flag_setting instr"
    with dispatch_flags [OF d]
    show "reg s' R_COND = flag_of (reg s' (unat (drop_bit 9 instr AND 7)))"
      by (simp add: sets_flags_def)
  }
  {
    assume i: "input_trap instr"
    then have "\<not> flag_setting instr"
      by (auto simp add: input_trap_def flag_setting_def op_names)
    with i dispatch_flags [OF d]
    show "reg s' R_COND = flag_of (reg s' R_R0)"
      by (simp add: sets_flags_def)
  }
qed

theorem cond_invariant_witness:
  "reachable silent (booted 0x1023) \<and>
   reg (booted 0x1023) R_COND = FL_ZRO \<and>
   (\<exists>s1 s'. fetch silent (booted 0x1023) = Inr (0x1023, s1) \<and>
      dispatch silent 0x1023 s1 = Some (Inr s') \<and> flag_setting 0x1023 \<and>
      reg s' (unat (drop_bit 9 (0x1023 :: 16 word) AND 7)) = 3 \<and>
      reg s' R_COND = flag_of 3 \<and> reg s' R_COND = FL_POS)"
proof -
  let ?s = "booted 0x1023"
  have "boot (start\<lparr>memory := (memory start)(0x3000 := 0x1023)\<rparr>) = Inr ?s"
    by (simp add: boot_eq booted_def start_def)
  then have r: "reachable silent ?s" by (rule reachable_boot)
  have pc: "reg ?s R_PC \<noteq> MR_KBSR" by (simp add: booted_def mr_names)
  let ?s1 = "?s\<lparr>reg := (reg ?s)(R_PC := reg ?s R_PC + 1)\<rparr>"
  let ?s' = "?s1\<lparr>reg := (reg ?s1)(0 := 3, R_COND := FL_POS)\<rparr>"
  have f: "fetch silent ?s = Inr (0x1023, ?s1)"
    by (simp add: fetch_plain [OF pc]) (simp add: booted_def start_def reg_names)
  have d: "dispatch silent 0x1023 ?s1 = Some (Inr ?s')"
    by (simp add: dispatch_def op_names op_add_eq Let_def flag_of_def flag_names)
       (simp add: booted_def start_def reg_names)
  have fs: "flag_setting 0x1023" by (simp add: flag_setting_def op_names)
  have r0: "reg ?s' (unat (drop_bit 9 (0x1023 :: 16 word) AND 7)) = 3"
    by (simp add: reg_names)
  from cond_invariant [OF r] f d fs
  have "reg ?s R_COND \<in> {FL_POS, FL_ZRO, FL_NEG}"
    and "reg ?s' R_COND = flag_of (reg ?s' (unat (drop_bit 9 (0x1023 :: 16 word) AND 7)))"
    by blast+
  with r f d fs r0 show ?thesis
    by (intro conjI exI [of _ ?s1] exI [of _ ?s']) (simp_all add: booted_def reg_names)
qed

section \<open>Bounds of memory and register accesses\<close>


















end
